theory Spec2Isabelle
  imports Complex_Main "HOL-Library.AList" "HOL-Library.Multiset" "HOL-Library.Sublist"
begin

section \<open>JavaScript values used by the blog\<close>

text \<open>
  Strings are lists of code units. A \<^typ>\<open>char\<close> is eight bits wide, so the model covers the
  strings whose UTF-16 code units are below 256; for them \<^const>\<open>length\<close> is
  \<^verbatim>\<open>String.prototype.length\<close>.

  Every exception the scripts can raise is a value of \<open>js_error\<close>; a computation that may
  throw returns \<open>js_error + 'a\<close>, and \<open>try_catch\<close> is the \<^verbatim>\<open>try { ... } catch (e) { ... }\<close>
  statement.
\<close>

datatype js_error = SyntaxError | TypeError | RangeError | SystemError

definition try_catch :: "js_error + 'a \<Rightarrow> (js_error \<Rightarrow> js_error + 'a) \<Rightarrow> js_error + 'a" where
  "try_catch body handler = (case body of Inl e \<Rightarrow> handler e | Inr v \<Rightarrow> Inr v)"

text \<open>
  A number is \<open>NaN\<close> or an integer. The integers are exact: the rounding of doubles beyond
  \<open>2^53\<close> and the overflow to \<open>Infinity\<close> are not modelled. The only numbers the routes compute
  are slice bounds, and an array is shorter than \<open>2^32\<close>, so a bound that large selects
  nothing in both readings.
\<close>

datatype number = NaN | Num int

definition num_sub :: "number \<Rightarrow> number \<Rightarrow> number" where
  "num_sub a b = (case (a, b) of (Num x, Num y) \<Rightarrow> Num (x - y) | _ \<Rightarrow> NaN)"

definition num_add :: "number \<Rightarrow> number \<Rightarrow> number" where
  "num_add a b = (case (a, b) of (Num x, Num y) \<Rightarrow> Num (x + y) | _ \<Rightarrow> NaN)"

definition num_mul :: "number \<Rightarrow> number \<Rightarrow> number" where
  "num_mul a b = (case (a, b) of (Num x, Num y) \<Rightarrow> Num (x * y) | _ \<Rightarrow> NaN)"

text \<open>
  The white space of \<^verbatim>\<open>parseInt\<close> and \<^verbatim>\<open>String.prototype.trim\<close> (WhiteSpace and
  LineTerminator) among the code units below 256: TAB, LF, VT, FF, CR, SP, NBSP.
\<close>

definition StrWhiteSpaceChar :: "char \<Rightarrow> bool" where
  "StrWhiteSpaceChar c \<longleftrightarrow>
     c \<in> set [CHR 0x09, CHR 0x0A, CHR 0x0B, CHR 0x0C, CHR 0x0D, CHR 0x20, CHR 0xA0]"

text \<open>The value of a code unit as a digit of radix \<open>R\<close>: 0-9, then a-z or A-Z for 10 onwards.\<close>

definition digit_of :: "nat \<Rightarrow> char \<Rightarrow> nat option" where
  "digit_of R c =
     (let n = (of_char c :: nat);
          v = (if 48 \<le> n \<and> n \<le> 57 then Some (n - 48)
               else if 97 \<le> n \<and> n \<le> 122 then Some (n - 87)
               else if 65 \<le> n \<and> n \<le> 90 then Some (n - 55)
               else None)
      in case v of None \<Rightarrow> None | Some d \<Rightarrow> if d < R then Some d else None)"

text \<open>
  \<^verbatim>\<open>parseInt(string)\<close> with no radix argument (ECMA-262, 19.2.5): skip leading white space,
  read a sign, read a \<^verbatim>\<open>0x\<close> prefix (radix 16, otherwise 10), take the longest prefix of
  digits; no digit at all gives \<open>NaN\<close>.
\<close>

definition parseInt :: "string \<Rightarrow> number" where
  "parseInt string =
     (let S = dropWhile StrWhiteSpaceChar string;
          sign = (if take 1 S = ''-'' then - 1 else 1 :: int);
          S1 = (if take 1 S = ''+'' \<or> take 1 S = ''-'' then drop 1 S else S);
          hex = (take 2 S1 = ''0x'' \<or> take 2 S1 = ''0X'');
          R = (if hex then 16 else 10 :: nat);
          S2 = (if hex then drop 2 S1 else S1);
          Z = takeWhile (\<lambda>c. digit_of R c \<noteq> None) S2
      in if Z = [] then NaN
         else Num (sign * int (foldl (\<lambda>a d. a * R + d) 0 (List.map_filter (digit_of R) Z))))"

definition ToIntegerOrInfinity :: "number \<Rightarrow> int" where
  "ToIntegerOrInfinity x = (case x of NaN \<Rightarrow> 0 | Num n \<Rightarrow> n)"

text \<open>
  \<^verbatim>\<open>Array.prototype.slice(start, end)\<close> (ECMA-262, 23.1.3.28): a negative bound counts from
  the end of the array, both bounds are clamped to \<open>0 .. len\<close>, and the elements \<open>k\<close> up to
  \<open>final - 1\<close> are copied.
\<close>

definition slice :: "'a list \<Rightarrow> number \<Rightarrow> number \<Rightarrow> 'a list" where
  "slice xs start fin =
     (let len = int (length xs);
          relativeStart = ToIntegerOrInfinity start;
          k = (if relativeStart < 0 then max (len + relativeStart) 0 else min relativeStart len);
          relativeEnd = ToIntegerOrInfinity fin;
          final = (if relativeEnd < 0 then max (len + relativeEnd) 0 else min relativeEnd len)
      in map (\<lambda>i. xs ! i) [nat k ..< nat final])"

text \<open>
  \<^verbatim>\<open>Array.prototype.find\<close>: the first element that satisfies the predicate, or
  \<^verbatim>\<open>undefined\<close> (\<open>None\<close>).
\<close>

fun find_first :: "('a \<Rightarrow> bool) \<Rightarrow> 'a list \<Rightarrow> 'a option" where
  "find_first P [] = None"
| "find_first P (x # xs) = (if P x then Some x else find_first P xs)"

text \<open>
  A plain object (an object literal, or an object built by \<^verbatim>\<open>JSON.parse\<close>) is the list of
  its own properties; its prototype is \<^verbatim>\<open>Object.prototype\<close>. Reading \<^verbatim>\<open>obj[key]\<close> gives the
  own property when there is one, otherwise the member of \<^verbatim>\<open>Object.prototype\<close> of that name
  (a function, or the prototype object itself for \<^verbatim>\<open>__proto__\<close>: neither is an array, and
  both are truthy), otherwise \<^verbatim>\<open>undefined\<close>.
\<close>

definition Object_prototype_keys :: "string list" where
  "Object_prototype_keys =
     [''constructor'', ''__proto__'', ''hasOwnProperty'', ''isPrototypeOf'',
      ''propertyIsEnumerable'', ''toLocaleString'', ''toString'', ''valueOf'',
      ''__defineGetter__'', ''__defineSetter__'', ''__lookupGetter__'', ''__lookupSetter__'']"

datatype 'v property = Own 'v | Inherited | Undefined

definition get_property :: "(string \<times> 'v) list \<Rightarrow> string \<Rightarrow> 'v property" where
  "get_property obj key =
     (case map_of obj key of
        Some v \<Rightarrow> Own v
      | None \<Rightarrow> if key \<in> set Object_prototype_keys then Inherited else Undefined)"

section \<open>The data model (src/index.ts, interfaces Post and BlogData)\<close>

text \<open>
  The \<open>date\<close> and \<open>updated\<close> fields hold the ISO-8601 text that \<^verbatim>\<open>Date.prototype.toISOString\<close>
  produces. Such a text and the time value in milliseconds determine each other, so it is
  kept as \<open>ISO ms\<close>: \<^verbatim>\<open>new Date(ms).toISOString()\<close> is \<open>ISO ms\<close>, and \<^verbatim>\<open>new Date(s)\<close> of \<open>s = ISO ms\<close>
  has the time value \<open>ms\<close>.
\<close>

datatype iso_string = ISO (time_value: int)

record Post =
  slug :: string
  title :: string
  date :: iso_string
  updated :: "iso_string option"
  tags :: "string list"
  excerpt :: string
  content :: string

record BlogData =
  posts :: "Post list"
  tag_index :: "(string \<times> string list) list"
  generatedAt :: iso_string

section \<open>The routes (src/index.ts)\<close>

text \<open>
  A response is its status code and the view that the template renders. The templates
  (\<^verbatim>\<open>renderLayout\<close>, \<^verbatim>\<open>formatDate\<close> and the template literals) only concatenate strings, so
  the view keeps the values they interpolate.
\<close>

datatype view =
    ListingPage "Post list" number int
  | PostPage Post
  | NotFoundPage
  | TagPage string "Post list"
  | ErrorPage

datatype response = Response (status: nat) (rendered: view)

definition perPage :: int where
  "perPage = 10"

text \<open>Lines 215 to 219 of the home route: the slice of the posts and the number of pages.\<close>

definition paginate :: "Post list \<Rightarrow> number \<Rightarrow> Post list \<times> int" where
  "paginate ps page =
     (let start = num_mul (num_sub page (Num 1)) (Num perPage);
          fin = num_add start (Num perPage);
          paginatedPosts = slice ps start fin;
          totalPages = \<lceil>real (length ps) / real_of_int perPage\<rceil>
      in (paginatedPosts, totalPages))"

text \<open>
  \<^verbatim>\<open>app.get("/")\<close>. The argument \<open>query\<close> is \<^verbatim>\<open>c.req.query("page")\<close>: \<open>None\<close> when the request
  has no \<^verbatim>\<open>page\<close> parameter. The empty string is falsy, so it is replaced by \<^verbatim>\<open>"1"\<close> as well.
\<close>

definition home_route :: "BlogData \<Rightarrow> string option \<Rightarrow> response" where
  "home_route blogData query =
     (let page = parseInt (case query of None \<Rightarrow> ''1'' | Some q \<Rightarrow> if q = [] then ''1'' else q);
          (paginatedPosts, totalPages) = paginate (posts blogData) page
      in Response 200 (ListingPage paginatedPosts page totalPages))"

text \<open>
  The \<^verbatim>\<open>catch\<close> clause that closes every route: an exception raised while the response is
  computed becomes the error page with status 500.
\<close>

definition respond :: "js_error + response \<Rightarrow> response" where
  "respond r = (case r of Inl e \<Rightarrow> Response 500 ErrorPage | Inr v \<Rightarrow> v)"

text \<open>\<^verbatim>\<open>app.get("/:slug")\<close>: the first post whose slug is the parameter, or the 404 page.\<close>

definition slug_route :: "BlogData \<Rightarrow> string \<Rightarrow> response" where
  "slug_route blogData s =
     respond
       (case find_first (\<lambda>p. slug p = s) (posts blogData) of
          None \<Rightarrow> Inr (Response 404 NotFoundPage)
        | Some post \<Rightarrow> Inr (Response 200 (PostPage post)))"

text \<open>
  \<^verbatim>\<open>app.get("/tag/:tag")\<close>, lines 455 to 460. \<^verbatim>\<open>blogData.tags[tag] || []\<close> reads a property
  of a plain object: an own entry is an array of slugs (truthy, also when empty);
  \<^verbatim>\<open>undefined\<close> is replaced by the empty array; an inherited member of \<^verbatim>\<open>Object.prototype\<close> is
  truthy and has no \<^verbatim>\<open>map\<close> method, so the call \<^verbatim>\<open>taggedSlugs.map(...)\<close> raises a TypeError.
  \<^verbatim>\<open>filter(Boolean)\<close> drops the \<^verbatim>\<open>undefined\<close> results of \<^verbatim>\<open>find\<close>; a post is an object and is kept.
\<close>

definition taggedPosts :: "BlogData \<Rightarrow> string \<Rightarrow> js_error + Post list" where
  "taggedPosts blogData tag =
     (case get_property (tag_index blogData) tag of
        Own taggedSlugs \<Rightarrow>
          Inr (List.map_filter
                 (\<lambda>s. find_first (\<lambda>post. slug post = s) (posts blogData)) taggedSlugs)
      | Undefined \<Rightarrow> Inr []
      | Inherited \<Rightarrow> Inl TypeError)"

definition tag_route :: "BlogData \<Rightarrow> string \<Rightarrow> response" where
  "tag_route blogData tag =
     respond
       (case taggedPosts blogData tag of
          Inl e \<Rightarrow> Inl e
        | Inr ps \<Rightarrow> Inr (Response 200 (TagPage tag ps)))"

section \<open>The build script (scripts/build.js)\<close>

text \<open>Sequencing of statements that may throw: the first exception ends the script.\<close>

definition and_then :: "js_error + 'a \<Rightarrow> ('a \<Rightarrow> js_error + 'b) \<Rightarrow> js_error + 'b" where
  "and_then r f = (case r of Inl e \<Rightarrow> Inl e | Inr v \<Rightarrow> f v)"

text \<open>
  \<^verbatim>\<open>a || b\<close> for a front-matter field \<open>a\<close> that is a string when present: \<^verbatim>\<open>undefined\<close> and the
  empty string are falsy.
\<close>

definition or_else :: "string option \<Rightarrow> string \<Rightarrow> string" where
  "or_else a b = (case a of None \<Rightarrow> b | Some s \<Rightarrow> if s = [] then b else s)"

text \<open>\<^verbatim>\<open>String.prototype.trim\<close>: white space is removed at both ends.\<close>

definition trim :: "string \<Rightarrow> string" where
  "trim s = rev (dropWhile StrWhiteSpaceChar (rev (dropWhile StrWhiteSpaceChar s)))"

text \<open>
  A \<^verbatim>\<open>Date\<close> object holds a time value in milliseconds or is an Invalid Date;
  \<^verbatim>\<open>toISOString\<close> raises a RangeError on an Invalid Date.
\<close>

datatype date_object = Date int | InvalidDate

definition toISOString :: "date_object \<Rightarrow> js_error + iso_string" where
  "toISOString d = (case d of Date ms \<Rightarrow> Inr (ISO ms) | InvalidDate \<Rightarrow> Inl RangeError)"

text \<open>
  The front-matter fields that the script reads from \<^verbatim>\<open>data\<close>, typed as the \<open>Post\<close> interface
  expects them. \<open>None\<close> is a field that is absent. For \<open>data_date\<close> and \<open>data_updated\<close>, \<open>None\<close> is a
  falsy field and \<open>Some d\<close> is the object \<^verbatim>\<open>new Date(data.date)\<close> of a truthy one. \<open>data_tags\<close> is
  \<open>None\<close> when \<^verbatim>\<open>Array.isArray(data.tags)\<close> is false.
\<close>

record frontmatter =
  data_slug :: "string option"
  data_title :: "string option"
  data_date :: "date_object option"
  data_updated :: "date_object option"
  data_tags :: "string list option"
  data_excerpt :: "string option"

text \<open>
  One entry of \<^verbatim>\<open>mdFiles\<close>, with what the libraries return for it: \<open>fileName\<close> is
  \<^verbatim>\<open>path.basename(filePath, ".md")\<close>; \<open>matter\<close> is the result of
  \<^verbatim>\<open>matter(fs.readFileSync(filePath, "utf-8"))\<close>, either an exception or the pair of \<^verbatim>\<open>data\<close> and
  \<^verbatim>\<open>content\<close>; \<open>now\<close> is the time value of \<^verbatim>\<open>new Date()\<close> while the file is processed.
  The renderer \<^verbatim>\<open>marked\<close> is a parameter of the script.
\<close>

record md_file =
  fileName :: string
  matter :: "js_error + frontmatter \<times> string"
  now :: int

text \<open>The character class \<^verbatim>\<open>[#*`]\<close> of the regular expression in line 51.\<close>

definition markup_char :: "char \<Rightarrow> bool" where
  "markup_char c \<longleftrightarrow> c \<in> set [CHR ''#'', CHR ''*'', CHR 0x60]"

text \<open>Line 51: \<^verbatim>\<open>content.slice(0, 150).replace(/[#*`]/g, "").trim() + "..."\<close>.\<close>

definition auto_excerpt :: "string \<Rightarrow> string" where
  "auto_excerpt body = trim (filter (\<lambda>c. \<not> markup_char c) (take 150 body)) @ ''...''"

text \<open>Lines 30 to 53: the post record of one file.\<close>

definition postData_of :: "(string \<Rightarrow> string) \<Rightarrow> md_file \<Rightarrow> js_error + Post" where
  "postData_of marked f =
     and_then (matter f) (\<lambda>(data, body).
       let htmlContent = marked body in
       and_then (case data_date data of
                   Some d \<Rightarrow> toISOString d
                 | None \<Rightarrow> toISOString (Date (now f))) (\<lambda>date_iso.
       and_then (case data_updated data of
                   Some d \<Rightarrow> and_then (toISOString d) (\<lambda>u. Inr (Some u))
                 | None \<Rightarrow> Inr None) (\<lambda>updated_iso.
       Inr \<lparr>slug = or_else (data_slug data) (fileName f),
            title = or_else (data_title data) ''Untitled'',
            date = date_iso,
            updated = updated_iso,
            tags = (case data_tags data of Some ts \<Rightarrow> ts | None \<Rightarrow> []),
            excerpt = or_else (data_excerpt data) (auto_excerpt body),
            content = htmlContent\<rparr>)))"

text \<open>
  Lines 57 to 60, the body of the \<^verbatim>\<open>forEach\<close> callback. \<^verbatim>\<open>tagMap\<close> is a plain object:
  \<^verbatim>\<open>!tagMap[tag]\<close> is true only when the read gives \<^verbatim>\<open>undefined\<close>; an own entry is an array and
  receives the slug; an inherited member of \<^verbatim>\<open>Object.prototype\<close> is truthy and has no \<^verbatim>\<open>push\<close>
  method, so the call raises a TypeError.
\<close>

definition add_tag ::
  "string \<Rightarrow> (string \<times> string list) list \<Rightarrow> string \<Rightarrow> js_error + (string \<times> string list) list"
  where
  "add_tag s tagMap tag =
     (case get_property tagMap tag of
        Undefined \<Rightarrow> Inr (AList.update tag [s] tagMap)
      | Own slugs \<Rightarrow> Inr (AList.update tag (slugs @ [s]) tagMap)
      | Inherited \<Rightarrow> Inl TypeError)"

fun add_tags ::
  "string \<Rightarrow> (string \<times> string list) list \<Rightarrow> string list \<Rightarrow> js_error + (string \<times> string list) list"
  where
  "add_tags s tagMap [] = Inr tagMap"
| "add_tags s tagMap (tag # rest) = and_then (add_tag s tagMap tag) (\<lambda>m. add_tags s m rest)"

text \<open>The loop of lines 28 to 64 over \<^verbatim>\<open>mdFiles\<close>, on the state \<^verbatim>\<open>(postsData, tagMap)\<close>.\<close>

fun process_files ::
  "(string \<Rightarrow> string) \<Rightarrow> Post list \<times> (string \<times> string list) list \<Rightarrow> md_file list
    \<Rightarrow> js_error + Post list \<times> (string \<times> string list) list"
  where
  "process_files marked (postsData, tagMap) [] = Inr (postsData, tagMap)"
| "process_files marked (postsData, tagMap) (f # rest) =
     and_then (postData_of marked f) (\<lambda>postData.
     and_then (add_tags (slug postData) tagMap (tags postData)) (\<lambda>m.
       process_files marked (postsData @ [postData], m) rest))"

text \<open>
  Line 67: the comparator \<^verbatim>\<open>(a, b) => new Date(b.date) - new Date(a.date)\<close>, and
  \<^verbatim>\<open>Array.prototype.sort\<close>. The sort is stable, and for a comparator that is a total preorder
  its result is determined: the stable insertion sort below computes it. \<open>x\<close> stays in front
  of \<open>y\<close> when the comparator is not positive.
\<close>

definition compare_posts :: "Post \<Rightarrow> Post \<Rightarrow> int" where
  "compare_posts a b = time_value (date b) - time_value (date a)"

fun insert_sorted :: "('a \<Rightarrow> 'a \<Rightarrow> int) \<Rightarrow> 'a \<Rightarrow> 'a list \<Rightarrow> 'a list" where
  "insert_sorted cmp x [] = [x]"
| "insert_sorted cmp x (y # ys) =
     (if cmp x y \<le> 0 then x # y # ys else y # insert_sorted cmp x ys)"

fun sort_with :: "('a \<Rightarrow> 'a \<Rightarrow> int) \<Rightarrow> 'a list \<Rightarrow> 'a list" where
  "sort_with cmp [] = []"
| "sort_with cmp (x # xs) = insert_sorted cmp x (sort_with cmp xs)"

text \<open>
  Lines 24 to 74: the artifact \<^verbatim>\<open>outputData\<close>; \<open>clock\<close> is the time value of the last
  \<^verbatim>\<open>new Date()\<close>. Writing the artifact to \<^verbatim>\<open>dist/blog-data.json\<close> is outside the model.
\<close>

definition build :: "(string \<Rightarrow> string) \<Rightarrow> md_file list \<Rightarrow> int \<Rightarrow> js_error + BlogData" where
  "build marked mdFiles clock =
     and_then (process_files marked ([], []) mdFiles) (\<lambda>(postsData, tagMap).
       Inr \<lparr>posts = sort_with compare_posts postsData,
            tag_index = tagMap,
            generatedAt = ISO clock\<rparr>)"

text \<open>
  A document that the script can process: the file is read and its front matter parsed, its
  dates are valid, and none of its tags is the name of a member of \<^verbatim>\<open>Object.prototype\<close>.
\<close>

definition no_prototype_key :: "string list \<Rightarrow> bool" where
  "no_prototype_key ts = list_all (\<lambda>t. t \<notin> set Object_prototype_keys) ts"

definition valid_document :: "md_file \<Rightarrow> bool" where
  "valid_document f =
     (case matter f of
        Inl e \<Rightarrow> False
      | Inr (data, body) \<Rightarrow>
          data_date data \<noteq> Some InvalidDate \<and> data_updated data \<noteq> Some InvalidDate \<and>
          (case data_tags data of None \<Rightarrow> True | Some ts \<Rightarrow> no_prototype_key ts))"

text \<open>The order of the artifact: a post comes before every post that is not newer.\<close>

definition newer_first :: "Post \<Rightarrow> Post \<Rightarrow> bool" where
  "newer_first p q \<longleftrightarrow> time_value (date q) \<le> time_value (date p)"

text \<open>The tag index lists slug \<open>s\<close> under tag \<open>t\<close>; every post of \<open>ps\<close> is listed under its tags.\<close>

definition index_has :: "(string \<times> string list) list \<Rightarrow> string \<Rightarrow> string \<Rightarrow> bool" where
  "index_has m t s \<longleftrightarrow> (\<exists>ss. get_property m t = Own ss \<and> s \<in> set ss)"

definition indexed :: "Post list \<Rightarrow> (string \<times> string list) list \<Rightarrow> bool" where
  "indexed ps m \<longleftrightarrow> (\<forall>p \<in> set ps. \<forall>t \<in> set (tags p). index_has m t (slug p))"

section \<open>The data loader (src/index.ts, loadBlogData)\<close>

text \<open>
  \<^verbatim>\<open>JSON.parse\<close> returns any JSON value, and the loader returns it under the declared type
  \<open>BlogData\<close> without a check at run time. So the loader is modelled on JSON values, and
  \<open>conforms_BlogData\<close> says that a value has the shape of the interface \<open>BlogData\<close>, the shape
  that the routes read. An object is the list of its own properties.
\<close>

datatype json =
    JNull
  | JBool bool
  | JNum int
  | JStr string
  | JArr "json list"
  | JObj "(string \<times> json) list"

text \<open>The interfaces \<open>Post\<close> and \<open>BlogData\<close> (lines 44 to 58) as shapes of JSON values.\<close>

definition is_string :: "json \<Rightarrow> bool" where
  "is_string j = (case j of JStr s \<Rightarrow> True | _ \<Rightarrow> False)"

definition is_array_of :: "(json \<Rightarrow> bool) \<Rightarrow> json \<Rightarrow> bool" where
  "is_array_of P j = (case j of JArr xs \<Rightarrow> list_all P xs | _ \<Rightarrow> False)"

definition has_field :: "(string \<times> json) list \<Rightarrow> string \<Rightarrow> (json \<Rightarrow> bool) \<Rightarrow> bool" where
  "has_field obj key P = (case map_of obj key of Some v \<Rightarrow> P v | None \<Rightarrow> False)"

definition conforms_Post :: "json \<Rightarrow> bool" where
  "conforms_Post j =
     (case j of
        JObj obj \<Rightarrow>
          has_field obj ''slug'' is_string \<and>
          has_field obj ''title'' is_string \<and>
          has_field obj ''date'' is_string \<and>
          has_field obj ''updated'' (\<lambda>v. is_string v \<or> v = JNull) \<and>
          has_field obj ''tags'' (is_array_of is_string) \<and>
          has_field obj ''excerpt'' is_string \<and>
          has_field obj ''content'' is_string
      | _ \<Rightarrow> False)"

definition conforms_BlogData :: "json \<Rightarrow> bool" where
  "conforms_BlogData j =
     (case j of
        JObj obj \<Rightarrow>
          has_field obj ''posts'' (is_array_of conforms_Post) \<and>
          has_field obj ''tags''
            (\<lambda>v. case v of JObj index \<Rightarrow> list_all (\<lambda>(tag, slugs). is_array_of is_string slugs) index
                  | _ \<Rightarrow> False) \<and>
          has_field obj ''generatedAt'' is_string
      | _ \<Rightarrow> False)"

text \<open>
  Lines 73 to 90. The two dates are the texts of \<^verbatim>\<open>new Date().toISOString()\<close> when the module
  is loaded.
\<close>

definition SAMPLE_BLOG_DATA :: "string \<Rightarrow> string \<Rightarrow> json" where
  "SAMPLE_BLOG_DATA postDate generated =
     JObj
       [(''posts'',
         JArr
           [JObj
              [(''slug'', JStr ''hello-world''),
               (''title'', JStr ''Hello World''),
               (''date'', JStr postDate),
               (''updated'', JNull),
               (''tags'', JArr [JStr ''Sample'']),
               (''excerpt'', JStr ''This is a sample post.''),
               (''content'',
                JStr ''<h1>Hello World</h1><p>This is a sample post. In a real build, HTML generated from Markdown files would be displayed here.</p>'')]]),
        (''tags'', JObj [(''Sample'', JArr [JStr ''hello-world''])]),
        (''generatedAt'', JStr generated)]"

text \<open>
  What the loader reads from its surroundings. \<open>fs\<close> and \<open>path\<close> are the module variables that
  the dynamic imports assign (\<open>None\<close> while \<^verbatim>\<open>undefined\<close>); \<open>dirname\<close> is \<^verbatim>\<open>__dirname\<close>;
  \<^verbatim>\<open>fs.readFileSync\<close> and \<^verbatim>\<open>JSON.parse\<close> return a value or throw.
\<close>

record fs_module =
  existsSync :: "string \<Rightarrow> bool"
  readFileSync :: "string \<Rightarrow> js_error + string"

record path_module =
  path_resolve :: "string \<Rightarrow> string \<Rightarrow> string"
  path_join :: "string \<Rightarrow> string \<Rightarrow> string \<Rightarrow> string"

record runtime =
  isNodeJS :: bool
  NODE_ENV :: "string option"
  fs :: "fs_module option"
  path :: "path_module option"
  dirname :: string
  JSON_parse :: "string \<Rightarrow> js_error + json"
  sample_date :: string
  sample_generatedAt :: string

definition SAMPLE :: "runtime \<Rightarrow> json" where
  "SAMPLE c = SAMPLE_BLOG_DATA (sample_date c) (sample_generatedAt c)"

text \<open>The condition of line 96.\<close>

definition development :: "runtime \<Rightarrow> bool" where
  "development c \<longleftrightarrow> isNodeJS c \<and> NODE_ENV c = Some ''development'' \<and> fs c \<noteq> None"

text \<open>Lines 107 and 108: the path of the artifact.\<close>

definition blog_data_path :: "path_module \<Rightarrow> string \<Rightarrow> string" where
  "blog_data_path path_mod dir =
     (let projectRoot = path_resolve path_mod dir ''..''
      in path_join path_mod projectRoot ''dist'' ''blog-data.json'')"

text \<open>
  Lines 93 to 167. The three \<^verbatim>\<open>try\<close> statements are kept; the second branch returns the
  sample at once (the network read is commented out in the source).
\<close>

definition loadBlogData :: "runtime \<Rightarrow> js_error + json" where
  "loadBlogData c =
     try_catch
       (if development c then
          try_catch
            (case (fs c, path c) of
               (Some fs_mod, Some path_mod) \<Rightarrow>
                 let filePath = blog_data_path path_mod (dirname c)
                 in if \<not> existsSync fs_mod filePath then Inr (SAMPLE c)
                    else and_then (readFileSync fs_mod filePath) (JSON_parse c)
             | _ \<Rightarrow> Inr (SAMPLE c))
            (\<lambda>fsError. Inr (SAMPLE c))
        else try_catch (Inr (SAMPLE c)) (\<lambda>fetchError. Inr (SAMPLE c)))
       (\<lambda>error. Inr (SAMPLE c))"

text \<open>
  The loader takes the file-system branch with the module \<open>fs_mod\<close>, and \<open>target\<close> is the path
  of the artifact.
\<close>

definition reads_artifact :: "runtime \<Rightarrow> fs_module \<Rightarrow> string \<Rightarrow> bool" where
  "reads_artifact c fs_mod target \<longleftrightarrow>
     development c \<and> fs c = Some fs_mod \<and>
     (\<exists>path_mod. path c = Some path_mod \<and> target = blog_data_path path_mod (dirname c))"

section \<open>Example inputs\<close>

text \<open>
  The scenario of the specification: two documents dated 2024-01-01 and 2024-02-01, both
  tagged \<^verbatim>\<open>Go\<close>, and the artifact that the script builds from them.
\<close>

definition example_marked :: "string \<Rightarrow> string" where
  "example_marked body = ''<p>'' @ body @ ''</p>''"

definition example_jan :: md_file where
  "example_jan =
     \<lparr>fileName = ''jan'',
      matter = Inr (\<lparr>data_slug = None, data_title = Some ''January'',
                     data_date = Some (Date 1704067200000), data_updated = None,
                     data_tags = Some [''Go''], data_excerpt = None\<rparr>,
                   ''# Hello *world* ''),
      now = 1710000000000\<rparr>"

definition example_feb :: md_file where
  "example_feb =
     \<lparr>fileName = ''feb'',
      matter = Inr (\<lparr>data_slug = None, data_title = Some ''February'',
                     data_date = Some (Date 1706745600000), data_updated = None,
                     data_tags = Some [''Go''], data_excerpt = Some ''short''\<rparr>,
                   ''text''),
      now = 1710000000001\<rparr>"

definition post_jan :: Post where
  "post_jan =
     \<lparr>slug = ''jan'', title = ''January'', date = ISO 1704067200000, updated = None,
      tags = [''Go''], excerpt = ''Hello world...'', content = ''<p># Hello *world* </p>''\<rparr>"

definition post_feb :: Post where
  "post_feb =
     \<lparr>slug = ''feb'', title = ''February'', date = ISO 1706745600000, updated = None,
      tags = [''Go''], excerpt = ''short'', content = ''<p>text</p>''\<rparr>"

definition example_artifact :: BlogData where
  "example_artifact =
     \<lparr>posts = [post_feb, post_jan],
      tag_index = [(''Go'', [''jan'', ''feb''])],
      generatedAt = ISO 1710000000002\<rparr>"

text \<open>A document with well-formed front matter and the tag \<^verbatim>\<open>constructor\<close>.\<close>

definition example_constructor :: md_file where
  "example_constructor =
     \<lparr>fileName = ''constructors'',
      matter = Inr (\<lparr>data_slug = None, data_title = Some ''Constructors'',
                     data_date = Some (Date 1709251200000), data_updated = None,
                     data_tags = Some [''constructor''], data_excerpt = None\<rparr>,
                   ''About constructors.''),
      now = 1710000000000\<rparr>"

text \<open>A document whose front matter sets the excerpt to the empty string.\<close>

definition example_empty_excerpt :: md_file where
  "example_empty_excerpt =
     \<lparr>fileName = ''empty'',
      matter = Inr (\<lparr>data_slug = None, data_title = None, data_date = None,
                     data_updated = None, data_tags = None, data_excerpt = Some []\<rparr>,
                   ''text''),
      now = 1710000000000\<rparr>"

text \<open>
  A development runtime over a table of files. \<open>example_parse\<close> is \<^verbatim>\<open>JSON.parse\<close> on the two
  texts \<^verbatim>\<open>{}\<close> and \<^verbatim>\<open>null\<close>, and raises the SyntaxError of a malformed text otherwise.
\<close>

definition example_path :: path_module where
  "example_path =
     \<lparr>path_resolve = (\<lambda>dir rel. dir @ ''/'' @ rel),
      path_join = (\<lambda>a b c. a @ ''/'' @ b @ ''/'' @ c)\<rparr>"

definition example_fs :: "(string \<times> (js_error + string)) list \<Rightarrow> fs_module" where
  "example_fs files =
     \<lparr>existsSync = (\<lambda>p. map_of files p \<noteq> None),
      readFileSync = (\<lambda>p. case map_of files p of Some r \<Rightarrow> r | None \<Rightarrow> Inl SystemError)\<rparr>"

definition example_parse :: "string \<Rightarrow> js_error + json" where
  "example_parse text =
     (if text = ''{}'' then Inr (JObj [])
      else if text = ''null'' then Inr JNull
      else Inl SyntaxError)"

definition example_file :: string where
  "example_file = ''/app/src/../dist/blog-data.json''"

definition example_runtime :: "(string \<times> (js_error + string)) list \<Rightarrow> runtime" where
  "example_runtime files =
     \<lparr>isNodeJS = True, NODE_ENV = Some ''development'', fs = Some (example_fs files),
      path = Some example_path, dirname = ''/app/src'', JSON_parse = example_parse,
      sample_date = ''2024-03-01T00:00:00.000Z'',
      sample_generatedAt = ''2024-03-01T00:00:00.001Z''\<rparr>"

text \<open>The sample artifact of the example runtime.\<close>

definition example_sample :: json where
  "example_sample = SAMPLE_BLOG_DATA ''2024-03-01T00:00:00.000Z'' ''2024-03-01T00:00:00.001Z''"

section \<open>Properties of the listing\<close>

lemma map_nth_upt_take_drop:
  assumes "b \<le> length xs"
  shows "map (\<lambda>i. xs ! i) [a..<b] = take (b - a) (drop a xs)"
proof (rule nth_equalityI)
  show "length (map (\<lambda>i. xs ! i) [a..<b]) = length (take (b - a) (drop a xs))"
    using assms by simp
next
  fix i assume "i < length (map (\<lambda>i. xs ! i) [a..<b])"
  then have "i < b - a" by simp
  then show "map (\<lambda>i. xs ! i) [a..<b] ! i = take (b - a) (drop a xs) ! i"
    using assms by (simp add: add.commute)
qed

text \<open>With both bounds non-negative, \<open>slice\<close> drops \<open>s\<close> elements and keeps the next \<open>e - s\<close>.\<close>

lemma slice_take_drop:
  assumes "0 \<le> s" and "0 \<le> e"
  shows "slice xs (Num s) (Num e) = take (nat e - nat s) (drop (nat s) xs)"
proof -
  let ?len = "int (length xs)"
  have "slice xs (Num s) (Num e) = map (\<lambda>i. xs ! i) [nat (min s ?len) ..< nat (min e ?len)]"
    using assms by (simp add: slice_def ToIntegerOrInfinity_def Let_def)
  also have "\<dots> = take (nat (min e ?len) - nat (min s ?len)) (drop (nat (min s ?len)) xs)"
    by (rule map_nth_upt_take_drop) simp
  also have "\<dots> = take (nat e - nat s) (drop (nat s) xs)"
  proof (cases "s \<le> ?len")
    case True
    then have s: "nat (min s ?len) = nat s" by simp
    show ?thesis
    proof (cases "e \<le> ?len")
      case True
      then show ?thesis using s by simp
    next
      case False
      then have "nat (min e ?len) = length xs" by simp
      moreover have "length xs - nat s \<le> nat e - nat s" using False by linarith
      ultimately show ?thesis using s by (simp add: min_absorb1)
    qed
  next
    case False
    then have "length xs \<le> nat s" by linarith
    then show ?thesis using False by simp
  qed
  finally show ?thesis .
qed

lemma totalPages_div: "\<lceil>real n / real_of_int perPage\<rceil> = (int n + 9) div 10"
  unfolding perPage_def by linarith

lemma slice_NaN: "slice xs NaN NaN = []"
  by (simp add: slice_def ToIntegerOrInfinity_def)

lemma slice_end_zero: "slice xs start (Num 0) = []"
  by (simp add: slice_def ToIntegerOrInfinity_def Let_def)

lemma paginate_Num:
  assumes "1 \<le> page"
  shows "fst (paginate ps (Num page)) = take (nat perPage) (drop (nat ((page - 1) * perPage)) ps)"
proof -
  have s: "0 \<le> (page - 1) * perPage" using assms by (simp add: perPage_def)
  have e: "0 \<le> (page - 1) * perPage + perPage" using assms by (simp add: perPage_def)
  have "nat ((page - 1) * perPage + perPage) - nat ((page - 1) * perPage) = nat perPage"
    using s by (simp add: perPage_def nat_add_distrib)
  then show ?thesis
    using slice_take_drop [OF s e, of ps]
    by (simp add: paginate_def num_mul_def num_sub_def num_add_def Let_def)
qed

text \<open>
  C2. For every post collection and every page \<open>page \<ge> 1\<close>, with \<open>perPage = 10\<close>, the listing
  is the contiguous run of the collection that starts at index \<open>(page - 1) * perPage\<close> and
  has at most \<open>perPage\<close> elements (so it ends before \<open>start + perPage\<close>); the page count is
  \<open>ceil (totalPosts / perPage)\<close>, which is \<open>(totalPosts + 9) div 10\<close>; and the listing is empty
  when \<open>start \<ge> totalPosts\<close>.
\<close>

theorem list_page_slice:
  assumes "1 \<le> page"
  shows "fst (paginate ps (Num page)) = take (nat perPage) (drop (nat ((page - 1) * perPage)) ps)
       \<and> snd (paginate ps (Num page)) = \<lceil>real (length ps) / real_of_int perPage\<rceil>
       \<and> snd (paginate ps (Num page)) = (int (length ps) + 9) div 10
       \<and> (int (length ps) \<le> (page - 1) * perPage \<longrightarrow> fst (paginate ps (Num page)) = [])"
proof -
  have tp: "snd (paginate ps (Num page)) = \<lceil>real (length ps) / real_of_int perPage\<rceil>"
    by (simp add: paginate_def Let_def)
  have empty: "fst (paginate ps (Num page)) = []" if "int (length ps) \<le> (page - 1) * perPage"
  proof -
    from that have "length ps \<le> nat ((page - 1) * perPage)" by linarith
    then show ?thesis using paginate_Num [OF assms, of ps] by simp
  qed
  show ?thesis
    using paginate_Num [OF assms, of ps] tp empty totalPages_div [of "length ps"] by simp
qed

theorem list_page_slice_witness:
  "fst (paginate (replicate 12 post_jan @ [post_feb]) (Num 2)) = [post_jan, post_jan, post_feb]
   \<and> snd (paginate (replicate 12 post_jan @ [post_feb]) (Num 2)) = 2
   \<and> fst (paginate (replicate 12 post_jan @ [post_feb]) (Num 3)) = []"
  using list_page_slice [of 2 "replicate 12 post_jan @ [post_feb]"]
    list_page_slice [of 3 "replicate 12 post_jan @ [post_feb]"]
  by (simp add: perPage_def eval_nat_numeral)

text \<open>
  C10. For every artifact, page 0 gives the bounds \<open>start = - perPage\<close> and \<open>end = 0\<close>; the
  slice over these bounds is empty for every collection, although \<open>start < totalPosts\<close>; so
  the request \<^verbatim>\<open>/?page=0\<close> lists no post.
\<close>

theorem page_zero_empty:
  "num_mul (num_sub (Num 0) (Num 1)) (Num perPage) = Num (- perPage)
   \<and> num_add (Num (- perPage)) (Num perPage) = Num 0
   \<and> slice ps (Num (- perPage)) (Num 0) = []
   \<and> - perPage < int (length ps)
   \<and> fst (paginate ps (Num 0)) = []
   \<and> home_route blogData (Some ''0'') =
        Response 200
          (ListingPage [] (Num 0) \<lceil>real (length (posts blogData)) / real_of_int perPage\<rceil>)"
proof -
  have p: "parseInt ''0'' = Num 0" by code_simp
  have b: "num_mul (num_sub (Num 0) (Num 1)) (Num perPage) = Num (- perPage)"
    by (simp add: num_mul_def num_sub_def)
  have e: "num_add (Num (- perPage)) (Num perPage) = Num 0"
    by (simp add: num_add_def)
  have f: "paginate qs (Num 0) = ([], \<lceil>real (length qs) / real_of_int perPage\<rceil>)" for qs
    by (simp add: paginate_def Let_def b e slice_end_zero)
  have "- perPage < int (length ps)" by (simp add: perPage_def)
  then show ?thesis
    using b e f by (simp add: home_route_def p slice_end_zero)
qed

text \<open>
  C3. The claim is that a non-numeric \<^verbatim>\<open>page\<close> parameter behaves as page 1. The route does
  not: \<^verbatim>\<open>parseInt("abc")\<close> is \<open>NaN\<close>, both slice bounds are \<open>NaN\<close>, and \<^verbatim>\<open>slice\<close> reads \<open>NaN\<close> as
  0, so the request \<^verbatim>\<open>/?page=abc\<close> lists no post at all, whereas \<^verbatim>\<open>/?page=1\<close> lists the first
  ten.
\<close>

theorem non_numeric_page_lists_nothing:
  "home_route blogData (Some ''abc'') =
     Response 200
       (ListingPage [] NaN \<lceil>real (length (posts blogData)) / real_of_int perPage\<rceil>)
   \<and> home_route blogData (Some ''1'') =
     Response 200
       (ListingPage (take 10 (posts blogData)) (Num 1)
          \<lceil>real (length (posts blogData)) / real_of_int perPage\<rceil>)"
proof -
  have p: "parseInt ''abc'' = NaN" by code_simp
  have q: "parseInt ''1'' = Num 1" by code_simp
  have n: "paginate ps NaN = ([], \<lceil>real (length ps) / real_of_int perPage\<rceil>)" for ps
    by (simp add: paginate_def Let_def num_mul_def num_sub_def num_add_def slice_NaN)
  have o: "fst (paginate ps (Num 1)) = take 10 ps" for ps
    using paginate_Num [of 1 ps] by (simp add: perPage_def)
  have o': "paginate ps (Num 1) = (take 10 ps, \<lceil>real (length ps) / real_of_int perPage\<rceil>)"
    for ps
    using o [of ps] by (simp add: paginate_def Let_def)
  show ?thesis
    by (simp add: home_route_def p q n o')
qed

text \<open>Every parameter that \<^verbatim>\<open>parseInt\<close> reads as \<open>NaN\<close> gives the empty listing.\<close>

lemma home_route_NaN:
  assumes "q \<noteq> []" and "parseInt q = NaN"
  shows "home_route blogData (Some q) =
           Response 200
             (ListingPage [] NaN \<lceil>real (length (posts blogData)) / real_of_int perPage\<rceil>)"
  using assms
  by (simp add: home_route_def paginate_def Let_def num_mul_def num_sub_def num_add_def
      slice_NaN)

text \<open>A missing or empty \<^verbatim>\<open>page\<close> parameter is read as page 1.\<close>

lemma home_route_default_page:
  "home_route blogData None = home_route blogData (Some ''1'')"
  "home_route blogData (Some []) = home_route blogData (Some ''1'')"
  by (simp_all add: home_route_def)

section \<open>Properties of the post and tag routes\<close>

lemma find_first_Some: "find_first P xs = Some x \<Longrightarrow> x \<in> set xs \<and> P x"
  by (induction xs) (auto split: if_splits)

lemma find_first_None: "find_first P xs = None \<longleftrightarrow> (\<forall>x \<in> set xs. \<not> P x)"
  by (induction xs) auto

text \<open>
  C4. For every artifact and every slug \<open>s\<close>: when some post has the slug \<open>s\<close>, the route
  answers 200 with a post of the artifact whose slug is \<open>s\<close> (the only one when slugs are
  unique); when no post has it, the route answers with the 404 page; and in neither case
  does it end in the error page of a caught exception.
\<close>

theorem get_by_slug:
  "(if \<exists>p \<in> set (posts blogData). slug p = s
    then \<exists>p. slug_route blogData s = Response 200 (PostPage p) \<and>
             p \<in> set (posts blogData) \<and> slug p = s
    else slug_route blogData s = Response 404 NotFoundPage)
   \<and> status (slug_route blogData s) \<noteq> 500"
proof (cases "find_first (\<lambda>p. slug p = s) (posts blogData)")
  case None
  then have "\<forall>p \<in> set (posts blogData). slug p \<noteq> s"
    by (simp add: find_first_None)
  then show ?thesis using None by (simp add: slug_route_def respond_def)
next
  case (Some post)
  then have "post \<in> set (posts blogData) \<and> slug post = s"
    by (rule find_first_Some)
  then show ?thesis using Some by (auto simp: slug_route_def respond_def)
qed

theorem get_by_slug_witness:
  "slug_route example_artifact ''jan'' = Response 200 (PostPage post_jan)
   \<and> slug_route example_artifact ''unknown-slug'' = Response 404 NotFoundPage"
  using get_by_slug [of example_artifact "''jan''"]
    get_by_slug [of example_artifact "''unknown-slug''"]
  by (auto simp: example_artifact_def post_jan_def post_feb_def)

text \<open>
  What the tag route does for a tag that is not the name of a member of \<^verbatim>\<open>Object.prototype\<close>:
  an absent tag gives the empty list, and a listed tag gives the posts that its slugs
  resolve to, in the order of the index, without the slugs that resolve to nothing.
\<close>

lemma tag_route_absent:
  assumes "tag \<notin> set Object_prototype_keys" and "map_of (tag_index blogData) tag = None"
  shows "tag_route blogData tag = Response 200 (TagPage tag [])"
  using assms by (simp add: tag_route_def taggedPosts_def get_property_def respond_def)

lemma tag_route_listed:
  assumes "map_of (tag_index blogData) tag = Some slugs"
  shows "tag_route blogData tag =
           Response 200 (TagPage tag
             (List.map_filter (\<lambda>s. find_first (\<lambda>post. slug post = s) (posts blogData)) slugs))"
  using assms by (simp add: tag_route_def taggedPosts_def get_property_def respond_def)

lemma map_filter_find_first:
  "List.map_filter (\<lambda>s. find_first (\<lambda>post. slug post = s) ps) (s # slugs) =
     (case find_first (\<lambda>post. slug post = s) ps of
        None \<Rightarrow> List.map_filter (\<lambda>s. find_first (\<lambda>post. slug post = s) ps) slugs
      | Some p \<Rightarrow> p # List.map_filter (\<lambda>s. find_first (\<lambda>post. slug post = s) ps) slugs)"
  by (simp add: List.map_filter_def split: option.splits)

text \<open>
  C5. The claim is that a tag absent from the tag index gives the empty sequence and not an
  error. The tag index is a plain object, so for the absent tag \<^verbatim>\<open>constructor\<close> the read
  \<^verbatim>\<open>blogData.tags[tag]\<close> gives the inherited function, \<^verbatim>\<open>taggedSlugs.map\<close> is not a function, and
  the route answers with the error page and status 500; an absent tag such as
  \<^verbatim>\<open>unused-tag\<close> gives the empty list.
\<close>

theorem inherited_tag_is_an_error:
  "map_of (tag_index example_artifact) ''constructor'' = None
   \<and> tag_route example_artifact ''constructor'' = Response 500 ErrorPage
   \<and> tag_route example_artifact ''unused-tag'' = Response 200 (TagPage ''unused-tag'' [])"
  by (simp add: example_artifact_def tag_route_def taggedPosts_def get_property_def
      Object_prototype_keys_def respond_def)

section \<open>Properties of the build script\<close>

lemma and_then_Inr: "and_then r f = Inr v \<longleftrightarrow> (\<exists>x. r = Inr x \<and> f x = Inr v)"
  by (cases r) (simp_all add: and_then_def)

lemma mset_insert_sorted: "mset (insert_sorted cmp x ys) = add_mset x (mset ys)"
  by (induction ys) simp_all

lemma mset_sort_with: "mset (sort_with cmp xs) = mset xs"
  by (induction xs) (simp_all add: mset_insert_sorted)

lemma set_insert_sorted: "set (insert_sorted cmp x ys) = insert x (set ys)"
  using mset_insert_sorted [of cmp x ys] by (metis set_mset_add_mset_insert set_mset_mset)

lemma set_sort_with: "set (sort_with cmp xs) = set xs"
  using mset_sort_with [of cmp xs] by (metis set_mset_mset)

lemma length_sort_with: "length (sort_with cmp xs) = length xs"
  using mset_sort_with [of cmp xs] by (metis size_mset)

lemma compare_posts_le: "compare_posts a b \<le> 0 \<longleftrightarrow> newer_first a b"
  by (simp add: compare_posts_def newer_first_def)

lemma sorted_insert_sorted:
  "sorted_wrt newer_first ys \<Longrightarrow> sorted_wrt newer_first (insert_sorted compare_posts x ys)"
proof (induction ys)
  case Nil
  then show ?case by simp
next
  case (Cons y ys)
  show ?case
  proof (cases "compare_posts x y \<le> 0")
    case True
    then have xy: "newer_first x y" by (simp add: compare_posts_le)
    have "newer_first x z" if "z \<in> set ys" for z
      using Cons.prems that xy by (auto simp: newer_first_def)
    then show ?thesis using True xy Cons.prems by auto
  next
    case False
    then have yx: "newer_first y x" by (simp add: compare_posts_def newer_first_def)
    then show ?thesis using False Cons by (auto simp: set_insert_sorted)
  qed
qed

lemma sorted_sort_with: "sorted_wrt newer_first (sort_with compare_posts xs)"
  by (induction xs) (simp_all add: sorted_insert_sorted)

lemma process_files_length:
  "process_files marked (ps, m) files = Inr (ps', m') \<Longrightarrow> length ps' = length ps + length files"
proof (induction files arbitrary: ps m)
  case Nil
  then show ?case by simp
next
  case (Cons f files)
  then show ?case by (auto simp: and_then_Inr)
qed

lemma build_Inr:
  "build marked mdFiles clock = Inr a \<longleftrightarrow>
     (\<exists>ps m. process_files marked ([], []) mdFiles = Inr (ps, m) \<and>
        a = \<lparr>posts = sort_with compare_posts ps, tag_index = m, generatedAt = ISO clock\<rparr>)"
  by (auto simp: build_def and_then_Inr)

lemma build_length:
  "build marked mdFiles clock = Inr a \<Longrightarrow> length (posts a) = length mdFiles"
  by (auto simp: build_Inr length_sort_with dest: process_files_length)

lemma get_property_no_prototype:
  "tag \<notin> set Object_prototype_keys \<Longrightarrow> get_property m tag \<noteq> Inherited"
  by (simp add: get_property_def split: option.splits)

lemma add_tags_succeeds:
  "no_prototype_key ts \<Longrightarrow> \<exists>m'. add_tags s m ts = Inr m'"
proof (induction ts arbitrary: m)
  case Nil
  then show ?case by simp
next
  case (Cons t ts)
  then have t: "t \<notin> set Object_prototype_keys" and ts: "no_prototype_key ts"
    by (simp_all add: no_prototype_key_def)
  obtain m1 where "add_tag s m t = Inr m1"
    using get_property_no_prototype [OF t, of m]
    by (cases "get_property m t") (simp_all add: add_tag_def)
  then show ?case using Cons.IH [OF ts, of m1] by (simp add: and_then_def)
qed

lemma toISOString_valid: "d \<noteq> InvalidDate \<Longrightarrow> \<exists>i. toISOString d = Inr i"
  by (cases d) (simp_all add: toISOString_def)

lemma postData_of_succeeds:
  assumes "valid_document f"
  shows "\<exists>p. postData_of marked f = Inr p \<and> no_prototype_key (tags p)"
proof -
  from assms obtain data body where m: "matter f = Inr (data, body)"
    and d: "data_date data \<noteq> Some InvalidDate" and u: "data_updated data \<noteq> Some InvalidDate"
    and t: "case data_tags data of None \<Rightarrow> True | Some ts \<Rightarrow> no_prototype_key ts"
    by (auto simp: valid_document_def split: sum.splits)
  have "\<exists>di. (case data_date data of Some d \<Rightarrow> toISOString d
               | None \<Rightarrow> toISOString (Date (now f))) = Inr di"
    using d by (cases "data_date data") (simp_all add: toISOString_valid)
  then obtain di where di: "(case data_date data of Some d \<Rightarrow> toISOString d
               | None \<Rightarrow> toISOString (Date (now f))) = Inr di" ..
  have "\<exists>ui. (case data_updated data of
                 Some d \<Rightarrow> and_then (toISOString d) (\<lambda>u. Inr (Some u))
               | None \<Rightarrow> Inr None) = Inr ui"
  proof (cases "data_updated data")
    case None
    then show ?thesis by simp
  next
    case (Some x)
    then obtain i where "toISOString x = Inr i" using u toISOString_valid [of x] by auto
    then show ?thesis using Some by (simp add: and_then_def)
  qed
  then obtain ui where ui: "(case data_updated data of
                 Some d \<Rightarrow> and_then (toISOString d) (\<lambda>u. Inr (Some u))
               | None \<Rightarrow> Inr None) = Inr ui" ..
  have "no_prototype_key (case data_tags data of Some ts \<Rightarrow> ts | None \<Rightarrow> [])"
    using t by (cases "data_tags data") (simp_all add: no_prototype_key_def)
  then show ?thesis
    using m di ui by (simp add: postData_of_def and_then_def Let_def)
qed

lemma process_files_succeeds:
  "\<forall>f \<in> set files. valid_document f \<Longrightarrow> \<exists>st. process_files marked (ps, m) files = Inr st"
proof (induction files arbitrary: ps m)
  case Nil
  then show ?case by simp
next
  case (Cons f files)
  then obtain p where p: "postData_of marked f = Inr p" and t: "no_prototype_key (tags p)"
    using postData_of_succeeds [of f marked] by auto
  obtain m1 where m1: "add_tags (slug p) m (tags p) = Inr m1"
    using add_tags_succeeds [OF t] by blast
  show ?case using p m1 Cons.IH [of "ps @ [p]" m1] Cons.prems by (simp add: and_then_def)
qed

lemma process_files_posts:
  "process_files marked (ps, m) files = Inr (ps', m') \<Longrightarrow>
     \<exists>qs. ps' = ps @ qs \<and> map (postData_of marked) files = map Inr qs"
proof (induction files arbitrary: ps m)
  case Nil
  then show ?case by simp
next
  case (Cons f files)
  then obtain p m1 where p: "postData_of marked f = Inr p"
    and rest: "process_files marked (ps @ [p], m1) files = Inr (ps', m')"
    by (auto simp: and_then_Inr)
  from Cons.IH [OF rest] obtain qs where "ps' = (ps @ [p]) @ qs"
    and "map (postData_of marked) files = map Inr qs" by blast
  then have "ps' = ps @ (p # qs) \<and> map (postData_of marked) (f # files) = map Inr (p # qs)"
    using p by simp
  then show ?case by blast
qed

lemma build_posts:
  assumes "build marked mdFiles clock = Inr a"
  shows "\<exists>qs. map (postData_of marked) mdFiles = map Inr qs \<and> mset (posts a) = mset qs"
proof -
  from assms obtain ps m where pf: "process_files marked ([], []) mdFiles = Inr (ps, m)"
    and a: "a = \<lparr>posts = sort_with compare_posts ps, tag_index = m, generatedAt = ISO clock\<rparr>"
    by (auto simp: build_Inr)
  from process_files_posts [OF pf] have "map (postData_of marked) mdFiles = map Inr ps" by simp
  then show ?thesis using a by (auto simp: mset_sort_with)
qed

lemma postData_of_example_jan: "postData_of example_marked example_jan = Inr post_jan"
  by (simp add: postData_of_def example_jan_def post_jan_def example_marked_def and_then_def
      toISOString_def or_else_def auto_excerpt_def trim_def markup_char_def StrWhiteSpaceChar_def)

lemma postData_of_example_feb: "postData_of example_marked example_feb = Inr post_feb"
  by (simp add: postData_of_def example_feb_def post_feb_def example_marked_def and_then_def
      toISOString_def or_else_def)

lemma add_tags_example:
  "add_tags ''jan'' [] [''Go''] = Inr [(''Go'', [''jan''])]"
  "add_tags ''feb'' [(''Go'', [''jan''])] [''Go''] = Inr [(''Go'', [''jan'', ''feb''])]"
  by (simp_all add: add_tag_def get_property_def Object_prototype_keys_def and_then_def)

lemma build_example:
  "build example_marked [example_jan, example_feb] 1710000000002 = Inr example_artifact"
proof -
  have "process_files example_marked ([], []) [example_jan, example_feb] =
          Inr ([post_jan, post_feb], [(''Go'', [''jan'', ''feb''])])"
    by (simp add: postData_of_example_jan postData_of_example_feb and_then_def add_tags_example
        post_jan_def post_feb_def del: add_tags.simps)
  moreover have "sort_with compare_posts [post_jan, post_feb] = [post_feb, post_jan]"
    by (simp add: compare_posts_def post_jan_def post_feb_def)
  ultimately show ?thesis
    by (simp add: build_def and_then_def example_artifact_def)
qed

lemma valid_examples: "\<forall>f \<in> set [example_jan, example_feb]. valid_document f"
  by (simp add: valid_document_def example_jan_def example_feb_def no_prototype_key_def
      Object_prototype_keys_def)

text \<open>
  What the script does for documents that are all valid: it returns an artifact, and the
  artifact holds exactly one post record per document. Its posts are, up to the order, the
  post records of the documents, so their number is the number of documents.
\<close>

lemma build_valid_documents:
  assumes "\<forall>f \<in> set mdFiles. valid_document f"
  shows "\<exists>a. build marked mdFiles clock = Inr a \<and> length (posts a) = length mdFiles \<and>
           (\<exists>qs. map (postData_of marked) mdFiles = map Inr qs \<and> mset (posts a) = mset qs)"
proof -
  obtain ps m where "process_files marked ([], []) mdFiles = Inr (ps, m)"
    using process_files_succeeds [OF assms, of marked "[]" "[]"] by auto
  then obtain a where a: "build marked mdFiles clock = Inr a"
    by (simp add: build_def and_then_def)
  then show ?thesis using build_length [OF a] build_posts [OF a] by blast
qed

text \<open>
  C6. The claim is that every valid content directory gives an artifact with one post
  record per document. The script gives no artifact for a directory that holds a document
  tagged \<^verbatim>\<open>constructor\<close>, although its front matter is well formed: \<^verbatim>\<open>tagMap\<close> is a plain
  object, \<^verbatim>\<open>tagMap[tag]\<close> is the inherited function, the array is not created, and
  \<^verbatim>\<open>tagMap[tag].push\<close> raises a TypeError that ends the script.
\<close>

theorem prototype_tag_aborts_build:
  "matter example_constructor =
     Inr (\<lparr>data_slug = None, data_title = Some ''Constructors'',
           data_date = Some (Date 1709251200000), data_updated = None,
           data_tags = Some [''constructor''], data_excerpt = None\<rparr>,
          ''About constructors.'')
   \<and> build example_marked [example_jan, example_constructor, example_feb] 1710000000002 =
     Inl TypeError"
proof -
  have "postData_of example_marked example_constructor =
          Inr \<lparr>slug = ''constructors'', title = ''Constructors'', date = ISO 1709251200000,
               updated = None, tags = [''constructor''],
               excerpt = ''About constructors....'',
               content = ''<p>About constructors.</p>''\<rparr>"
    by (simp add: postData_of_def example_constructor_def example_marked_def and_then_def
        toISOString_def or_else_def auto_excerpt_def trim_def markup_char_def
        StrWhiteSpaceChar_def)
  moreover have "add_tags ''constructors'' [(''Go'', [''jan''])] [''constructor''] = Inl TypeError"
    by (simp add: add_tag_def get_property_def Object_prototype_keys_def and_then_def)
  ultimately have "process_files example_marked ([], [])
                     [example_jan, example_constructor, example_feb] = Inl TypeError"
    by (simp add: postData_of_example_jan and_then_def add_tags_example post_jan_def
        del: add_tags.simps)
  then show ?thesis
    by (simp add: build_def and_then_def example_constructor_def)
qed

text \<open>
  C7. In every artifact that the script returns, the posts are in non-increasing order of
  their dates: each post is followed only by posts that are not newer.
\<close>

theorem build_sorted_by_date:
  assumes "build marked mdFiles clock = Inr a"
  shows "sorted_wrt (\<lambda>p q. time_value (date q) \<le> time_value (date p)) (posts a)"
  using assms sorted_sort_with unfolding newer_first_def by (auto simp: build_Inr)

theorem build_sorted_by_date_witness:
  "sorted_wrt (\<lambda>p q. time_value (date q) \<le> time_value (date p)) (posts example_artifact)"
  by (rule build_sorted_by_date [OF build_example])

lemma index_has_map_of: "index_has m t s \<longleftrightarrow> (\<exists>ss. map_of m t = Some ss \<and> s \<in> set ss)"
  by (auto simp: index_has_def get_property_def split: option.splits)

lemma add_tag_Inr:
  assumes "add_tag s m t = Inr m'"
  shows "map_of m' = (map_of m)(t \<mapsto> (case map_of m t of None \<Rightarrow> [] | Some ss \<Rightarrow> ss) @ [s])"
  using assms
  by (auto simp: add_tag_def get_property_def update_conv' split: option.splits if_splits)

lemma add_tag_adds: "add_tag s m t = Inr m' \<Longrightarrow> index_has m' t s"
  by (simp add: index_has_map_of add_tag_Inr)

lemma add_tag_keeps: "add_tag s m t = Inr m' \<Longrightarrow> index_has m t' s' \<Longrightarrow> index_has m' t' s'"
  by (auto simp: index_has_map_of add_tag_Inr)

lemma add_tags_keeps: "add_tags s m ts = Inr m' \<Longrightarrow> index_has m t' s' \<Longrightarrow> index_has m' t' s'"
proof (induction ts arbitrary: m)
  case Nil
  then show ?case by simp
next
  case (Cons t ts)
  then show ?case by (auto simp: and_then_Inr dest: add_tag_keeps)
qed

lemma add_tags_adds: "add_tags s m ts = Inr m' \<Longrightarrow> t \<in> set ts \<Longrightarrow> index_has m' t s"
proof (induction ts arbitrary: m)
  case Nil
  then show ?case by simp
next
  case (Cons t' ts)
  then obtain m1 where m1: "add_tag s m t' = Inr m1" and rest: "add_tags s m1 ts = Inr m'"
    by (auto simp: and_then_Inr)
  show ?case
  proof (cases "t = t'")
    case True
    then show ?thesis using add_tag_adds [OF m1] add_tags_keeps [OF rest] by simp
  next
    case False
    then show ?thesis using Cons.IH [OF rest] Cons.prems(2) by simp
  qed
qed

lemma process_files_indexed:
  "process_files marked (ps, m) files = Inr (ps', m') \<Longrightarrow> indexed ps m \<Longrightarrow> indexed ps' m'"
proof (induction files arbitrary: ps m)
  case Nil
  then show ?case by simp
next
  case (Cons f files)
  then obtain p m1 where p: "postData_of marked f = Inr p"
    and m1: "add_tags (slug p) m (tags p) = Inr m1"
    and rest: "process_files marked (ps @ [p], m1) files = Inr (ps', m')"
    by (auto simp: and_then_Inr)
  have "indexed (ps @ [p]) m1"
    using Cons.prems(2) add_tags_keeps [OF m1] add_tags_adds [OF m1]
    by (auto simp: indexed_def)
  then show ?case using Cons.IH [OF rest] by simp
qed

text \<open>
  C8. In every artifact that the script returns, for every post \<open>p\<close> and every tag \<open>t\<close> of \<open>p\<close>,
  the tag index has an own entry for \<open>t\<close>, and the entry contains the slug of \<open>p\<close>.
\<close>

theorem build_tag_index_complete:
  assumes "build marked mdFiles clock = Inr a"
  shows "\<forall>p \<in> set (posts a). \<forall>t \<in> set (tags p).
           \<exists>slugs. get_property (tag_index a) t = Own slugs \<and> slug p \<in> set slugs"
proof -
  from assms obtain ps m where pf: "process_files marked ([], []) mdFiles = Inr (ps, m)"
    and a: "a = \<lparr>posts = sort_with compare_posts ps, tag_index = m, generatedAt = ISO clock\<rparr>"
    by (auto simp: build_Inr)
  have "indexed ps m"
    using process_files_indexed [OF pf] by (simp add: indexed_def)
  then show ?thesis
    using a by (simp add: indexed_def index_has_def set_sort_with)
qed

theorem build_tag_index_complete_witness:
  "get_property (tag_index example_artifact) ''Go'' = Own [''jan'', ''feb'']
   \<and> slug post_jan \<in> set [''jan'', ''feb''] \<and> slug post_feb \<in> set [''jan'', ''feb'']"
  using build_tag_index_complete [OF build_example]
  by (simp add: example_artifact_def post_jan_def post_feb_def get_property_def)

lemma trim_subseq: "subseq (trim s) s"
proof -
  let ?t = "dropWhile StrWhiteSpaceChar s"
  have "suffix (dropWhile StrWhiteSpaceChar (rev ?t)) (rev ?t)"
    by (rule suffix_dropWhile)
  then have "prefix (trim s) ?t"
    by (simp add: trim_def suffix_to_prefix)
  then have "subseq (trim s) ?t" by (rule prefix_imp_subseq)
  moreover have "subseq ?t s" by (rule suffix_imp_subseq) (rule suffix_dropWhile)
  ultimately show ?thesis by (rule subseq_order.order_trans)
qed

lemma stripped_shape:
  "subseq (trim (filter (\<lambda>c. \<not> markup_char c) xs)) xs \<and>
   (\<forall>c \<in> set (trim (filter (\<lambda>c. \<not> markup_char c) xs)). \<not> markup_char c)"
proof -
  let ?kept = "filter (\<lambda>c. \<not> markup_char c) xs"
  have 1: "subseq (trim ?kept) ?kept" by (rule trim_subseq)
  have 2: "subseq ?kept xs" by (rule subseq_filter_left)
  have 3: "subseq (trim ?kept) xs" using 1 2 by (rule subseq_order.order_trans)
  have "\<not> markup_char c" if "c \<in> set (trim ?kept)" for c
  proof -
    from list_emb_set [OF 1 that] have "c \<in> set ?kept" by blast
    then show ?thesis by simp
  qed
  then show ?thesis using 3 by blast
qed

lemma length_take_150: "length (take 150 body) \<le> 150" by simp

lemma auto_excerpt_shape:
  "\<exists>core. auto_excerpt body = core @ ''...'' \<and> subseq core (take 150 body) \<and>
      length core \<le> 150 \<and> (\<forall>c \<in> set core. \<not> markup_char c)"
proof -
  define pre where "pre = take 150 body"
  define core where "core = trim (filter (\<lambda>c. \<not> markup_char c) pre)"
  have s: "subseq core pre" and m: "\<forall>c \<in> set core. \<not> markup_char c"
    using stripped_shape [of pre] unfolding core_def by blast+
  from s have "length core \<le> length pre" by (rule list_emb_length)
  also have "\<dots> \<le> 150" unfolding pre_def by (rule length_take_150)
  finally have l: "length core \<le> 150" .
  have a: "auto_excerpt body = core @ ''...''"
    unfolding auto_excerpt_def core_def pre_def by (rule refl)
  have s': "subseq core (take 150 body)" using s unfolding pre_def .
  show ?thesis
    by (rule exI [of _ core]) (intro conjI a s' l m)
qed

lemma postData_of_excerpt:
  assumes "postData_of marked f = Inr p" and "matter f = Inr (data, body)"
  shows "excerpt p = or_else (data_excerpt data) (auto_excerpt body)"
proof -
  from assms obtain d u where
    "p = \<lparr>slug = or_else (data_slug data) (fileName f),
          title = or_else (data_title data) ''Untitled'',
          date = d, updated = u,
          tags = (case data_tags data of Some ts \<Rightarrow> ts | None \<Rightarrow> []),
          excerpt = or_else (data_excerpt data) (auto_excerpt body),
          content = marked body\<rparr>"
    by (clarsimp simp: postData_of_def and_then_Inr Let_def)
  then show ?thesis by simp
qed

text \<open>
  What \<open>trim\<close> returns: the string without its longest leading and trailing runs of white
  space. The result is determined by this: it neither starts nor ends with white space.
\<close>

lemma trim_decompose:
  "\<exists>l r. s = l @ trim s @ r \<and> list_all StrWhiteSpaceChar l \<and> list_all StrWhiteSpaceChar r \<and>
     (trim s = [] \<or>
      (\<not> StrWhiteSpaceChar (hd (trim s)) \<and> \<not> StrWhiteSpaceChar (last (trim s))))"
proof -
  define l where "l = takeWhile StrWhiteSpaceChar s"
  define t where "t = dropWhile StrWhiteSpaceChar s"
  define r where "r = rev (takeWhile StrWhiteSpaceChar (rev t))"
  define u where "u = dropWhile StrWhiteSpaceChar (rev t)"
  have tr: "trim s = rev u" by (simp add: trim_def u_def t_def)
  have s: "s = l @ t" by (simp add: l_def t_def)
  have "rev t = takeWhile StrWhiteSpaceChar (rev t) @ u" by (simp add: u_def)
  then have "rev (rev t) = rev (takeWhile StrWhiteSpaceChar (rev t) @ u)" by (rule arg_cong)
  then have t: "t = rev u @ r" by (simp add: r_def)
  have wl: "list_all StrWhiteSpaceChar l"
    unfolding l_def list_all_iff by (auto dest: set_takeWhileD)
  have wr: "list_all StrWhiteSpaceChar r"
    unfolding r_def list_all_iff by (auto dest: set_takeWhileD)
  have ends: "\<not> StrWhiteSpaceChar (hd (rev u)) \<and> \<not> StrWhiteSpaceChar (last (rev u))"
    if ne: "u \<noteq> []"
  proof -
    have "\<not> StrWhiteSpaceChar (hd u)"
      using ne unfolding u_def by (rule hd_dropWhile)
    then have la: "\<not> StrWhiteSpaceChar (last (rev u))" using ne by (simp add: last_rev)
    have "t \<noteq> []" using t ne by simp
    then have "\<not> StrWhiteSpaceChar (hd t)" unfolding t_def by (rule hd_dropWhile)
    moreover have "hd t = hd (rev u)" using t ne by simp
    ultimately show ?thesis using la by simp
  qed
  have "s = l @ trim s @ r" using s t tr by simp
  moreover have "trim s = [] \<or>
      (\<not> StrWhiteSpaceChar (hd (trim s)) \<and> \<not> StrWhiteSpaceChar (last (trim s)))"
    using ends tr by (cases "u = []") simp_all
  ultimately show ?thesis using wl wr by blast
qed

text \<open>
  C9, amended. The excerpt of a built post is the \<^verbatim>\<open>excerpt\<close> field of the front matter when
  that field is present and not empty. When the field is absent or empty, the excerpt is
  equal to the first 150 characters of the body, without the characters \<^verbatim>\<open>#\<close>, \<^verbatim>\<open>*\<close> and
  the backquote, trimmed, followed by three dots. The trimmed core is what remains of the
  stripped prefix when its leading and trailing white space is removed: it neither starts
  nor ends with white space, keeps the order of the body, has at most 150 characters and
  contains no markup character.
\<close>

theorem excerpt_override_or_derived:
  assumes "postData_of marked f = Inr p" and "matter f = Inr (data, body)"
  shows "(\<forall>e. data_excerpt data = Some e \<and> e \<noteq> [] \<longrightarrow> excerpt p = e)
       \<and> (data_excerpt data = None \<or> data_excerpt data = Some [] \<longrightarrow>
            excerpt p = trim (filter (\<lambda>c. \<not> markup_char c) (take 150 body)) @ ''...''
          \<and> (\<exists>core l r. excerpt p = core @ ''...'' \<and>
                filter (\<lambda>c. \<not> markup_char c) (take 150 body) = l @ core @ r \<and>
                list_all StrWhiteSpaceChar l \<and> list_all StrWhiteSpaceChar r \<and>
                (core = [] \<or>
                 (\<not> StrWhiteSpaceChar (hd core) \<and> \<not> StrWhiteSpaceChar (last core))) \<and>
                subseq core (take 150 body) \<and> length core \<le> 150 \<and>
                (\<forall>c \<in> set core. \<not> markup_char c)))"
proof -
  define kept where "kept = filter (\<lambda>c. \<not> markup_char c) (take 150 body)"
  define core where "core = trim kept"
  have e: "excerpt p = or_else (data_excerpt data) (auto_excerpt body)"
    using assms by (rule postData_of_excerpt)
  have a: "auto_excerpt body = core @ ''...''"
    unfolding auto_excerpt_def core_def kept_def by (rule refl)
  have override: "excerpt p = x" if "data_excerpt data = Some x" and "x \<noteq> []" for x
    using e that by (simp add: or_else_def)
  have derived: "excerpt p = core @ ''...''"
    if "data_excerpt data = None \<or> data_excerpt data = Some []"
    using e a that by (auto simp: or_else_def)
  obtain l r where dec: "kept = l @ core @ r" and wl: "list_all StrWhiteSpaceChar l"
    and wr: "list_all StrWhiteSpaceChar r"
    and ends: "core = [] \<or>
                 (\<not> StrWhiteSpaceChar (hd core) \<and> \<not> StrWhiteSpaceChar (last core))"
    using trim_decompose [of kept] unfolding core_def by blast
  have sub: "subseq core (take 150 body)" and mk: "\<forall>c \<in> set core. \<not> markup_char c"
    using stripped_shape [of "take 150 body"] unfolding core_def kept_def by blast+
  from sub have "length core \<le> length (take 150 body)" by (rule list_emb_length)
  also have "\<dots> \<le> 150" by (rule length_take_150)
  finally have len: "length core \<le> 150" .
  show ?thesis
  proof (intro conjI allI impI)
    fix x assume "data_excerpt data = Some x \<and> x \<noteq> []"
    then show "excerpt p = x" using override by blast
  next
    assume "data_excerpt data = None \<or> data_excerpt data = Some []"
    then show "excerpt p = trim (filter (\<lambda>c. \<not> markup_char c) (take 150 body)) @ ''...''"
      using derived unfolding core_def kept_def by simp
  next
    assume "data_excerpt data = None \<or> data_excerpt data = Some []"
    then have d: "excerpt p = core @ ''...''" by (rule derived)
    have k: "filter (\<lambda>c. \<not> markup_char c) (take 150 body) = l @ core @ r"
      using dec unfolding kept_def .
    show "\<exists>core l r. excerpt p = core @ ''...'' \<and>
                filter (\<lambda>c. \<not> markup_char c) (take 150 body) = l @ core @ r \<and>
                list_all StrWhiteSpaceChar l \<and> list_all StrWhiteSpaceChar r \<and>
                (core = [] \<or>
                 (\<not> StrWhiteSpaceChar (hd core) \<and> \<not> StrWhiteSpaceChar (last core))) \<and>
                subseq core (take 150 body) \<and> length core \<le> 150 \<and>
                (\<forall>c \<in> set core. \<not> markup_char c)"
      by (rule exI [of _ core], rule exI [of _ l], rule exI [of _ r])
        (intro conjI d k wl wr ends sub len mk)
  qed
qed

theorem excerpt_override_or_derived_witness:
  "excerpt post_feb = ''short''
   \<and> excerpt post_jan = trim (filter (\<lambda>c. \<not> markup_char c) (take 150 ''# Hello *world* '')) @ ''...''
   \<and> trim (filter (\<lambda>c. \<not> markup_char c) (take 150 ''# Hello *world* '')) = ''Hello world''"
proof -
  have jan: "matter example_jan = Inr (\<lparr>data_slug = None, data_title = Some ''January'',
                     data_date = Some (Date 1704067200000), data_updated = None,
                     data_tags = Some [''Go''], data_excerpt = None\<rparr>, ''# Hello *world* '')"
    by (simp add: example_jan_def)
  have feb: "matter example_feb = Inr (\<lparr>data_slug = None, data_title = Some ''February'',
                     data_date = Some (Date 1706745600000), data_updated = None,
                     data_tags = Some [''Go''], data_excerpt = Some ''short''\<rparr>, ''text'')"
    by (simp add: example_feb_def)
  have 1: "excerpt post_feb = ''short''"
    using excerpt_override_or_derived [OF postData_of_example_feb feb] by simp
  have 2: "excerpt post_jan =
             trim (filter (\<lambda>c. \<not> markup_char c) (take 150 ''# Hello *world* '')) @ ''...''"
    using excerpt_override_or_derived [OF postData_of_example_jan jan] by simp
  have 3: "trim (filter (\<lambda>c. \<not> markup_char c) (take 150 ''# Hello *world* '')) = ''Hello world''"
    by (simp add: trim_def markup_char_def StrWhiteSpaceChar_def)
  show ?thesis using 1 2 3 by simp
qed

text \<open>
  C9 as stated fails for a front matter whose \<^verbatim>\<open>excerpt\<close> is present and empty: the empty
  string is falsy, so the excerpt of the post is derived from the body.
\<close>

theorem empty_excerpt_override_counterexample:
  "matter example_empty_excerpt =
     Inr (\<lparr>data_slug = None, data_title = None, data_date = None, data_updated = None,
           data_tags = None, data_excerpt = Some []\<rparr>, ''text'')
   \<and> postData_of example_marked example_empty_excerpt =
     Inr \<lparr>slug = ''empty'', title = ''Untitled'', date = ISO 1710000000000, updated = None,
          tags = [], excerpt = ''text...'', content = ''<p>text</p>''\<rparr>"
  by (simp add: postData_of_def example_empty_excerpt_def example_marked_def and_then_def
      toISOString_def or_else_def auto_excerpt_def trim_def markup_char_def
      StrWhiteSpaceChar_def)

section \<open>Properties of the data loader\<close>

lemma conforms_SAMPLE: "conforms_BlogData (SAMPLE c)"
  by (simp add: SAMPLE_def conforms_BlogData_def SAMPLE_BLOG_DATA_def has_field_def
      is_array_of_def conforms_Post_def is_string_def)

lemma try_catch_sample:
  "try_catch body (\<lambda>e. Inr s) = Inr (case body of Inl e \<Rightarrow> s | Inr v \<Rightarrow> v)"
  by (cases body) (simp_all add: try_catch_def)

lemma loadBlogData_returns: "\<exists>v. loadBlogData c = Inr v"
  by (simp add: loadBlogData_def try_catch_sample)

lemma loadBlogData_not_development:
  "\<not> development c \<Longrightarrow> loadBlogData c = Inr (SAMPLE c)"
  by (simp add: loadBlogData_def try_catch_sample)

lemma loadBlogData_no_path:
  "development c \<Longrightarrow> path c = None \<Longrightarrow> loadBlogData c = Inr (SAMPLE c)"
  by (simp add: loadBlogData_def try_catch_sample split: option.splits)

lemma loadBlogData_reads:
  assumes "reads_artifact c fs_mod target"
  shows "loadBlogData c =
           Inr (if \<not> existsSync fs_mod target then SAMPLE c
                else case readFileSync fs_mod target of
                       Inl e \<Rightarrow> SAMPLE c
                     | Inr raw \<Rightarrow> (case JSON_parse c raw of Inl e \<Rightarrow> SAMPLE c | Inr v \<Rightarrow> v))"
proof -
  from assms obtain path_mod where "development c" and "fs c = Some fs_mod"
    and "path c = Some path_mod" and "target = blog_data_path path_mod (dirname c)"
    by (auto simp: reads_artifact_def)
  then show ?thesis
    by (simp add: loadBlogData_def try_catch_sample and_then_def Let_def split: sum.splits)
qed

text \<open>
  C1, amended. For every runtime the loader returns a value and never an exception. It
  returns the sample artifact outside the development branch, when the \<^verbatim>\<open>path\<close> module is
  not loaded, when the artifact file is missing, when reading it throws and when
  \<^verbatim>\<open>JSON.parse\<close> throws; when the file is read and parsed, it returns the parsed value as
  it is. The sample artifact has the shape of \<open>BlogData\<close>.
\<close>

theorem load_degrades_to_sample:
  "(\<exists>v. loadBlogData c = Inr v)
   \<and> (\<not> development c \<longrightarrow> loadBlogData c = Inr (SAMPLE c))
   \<and> (development c \<and> path c = None \<longrightarrow> loadBlogData c = Inr (SAMPLE c))
   \<and> (\<forall>fs_mod target. reads_artifact c fs_mod target \<and> \<not> existsSync fs_mod target \<longrightarrow>
         loadBlogData c = Inr (SAMPLE c))
   \<and> (\<forall>fs_mod target e. reads_artifact c fs_mod target \<and> existsSync fs_mod target \<and>
         readFileSync fs_mod target = Inl e \<longrightarrow> loadBlogData c = Inr (SAMPLE c))
   \<and> (\<forall>fs_mod target raw e. reads_artifact c fs_mod target \<and> existsSync fs_mod target \<and>
         readFileSync fs_mod target = Inr raw \<and> JSON_parse c raw = Inl e \<longrightarrow>
         loadBlogData c = Inr (SAMPLE c))
   \<and> (\<forall>fs_mod target raw v. reads_artifact c fs_mod target \<and> existsSync fs_mod target \<and>
         readFileSync fs_mod target = Inr raw \<and> JSON_parse c raw = Inr v \<longrightarrow>
         loadBlogData c = Inr v)
   \<and> conforms_BlogData (SAMPLE c)"
proof -
  have missing: "loadBlogData c = Inr (SAMPLE c)"
    if "reads_artifact c fs_mod target \<and> \<not> existsSync fs_mod target" for fs_mod target
    using that loadBlogData_reads [of c fs_mod target] by simp
  have unreadable: "loadBlogData c = Inr (SAMPLE c)"
    if "reads_artifact c fs_mod target \<and> existsSync fs_mod target \<and>
        readFileSync fs_mod target = Inl e" for fs_mod target e
    using that loadBlogData_reads [of c fs_mod target] by simp
  have malformed: "loadBlogData c = Inr (SAMPLE c)"
    if "reads_artifact c fs_mod target \<and> existsSync fs_mod target \<and>
        readFileSync fs_mod target = Inr raw \<and> JSON_parse c raw = Inl e"
    for fs_mod target raw e
    using that loadBlogData_reads [of c fs_mod target] by simp
  have parsed: "loadBlogData c = Inr v"
    if "reads_artifact c fs_mod target \<and> existsSync fs_mod target \<and>
        readFileSync fs_mod target = Inr raw \<and> JSON_parse c raw = Inr v"
    for fs_mod target raw v
    using that loadBlogData_reads [of c fs_mod target] by simp
  show ?thesis
    using loadBlogData_returns [of c] loadBlogData_not_development [of c]
      loadBlogData_no_path [of c] missing unreadable malformed parsed conforms_SAMPLE [of c]
    by blast
qed

lemma example_runtime_reads:
  "reads_artifact (example_runtime files) (example_fs files) example_file"
  by (simp add: reads_artifact_def example_runtime_def development_def blog_data_path_def
      example_path_def example_file_def)

lemma example_runtime_sample: "SAMPLE (example_runtime files) = example_sample"
  by (simp add: example_runtime_def SAMPLE_def example_sample_def)

lemma example_runtime_parse: "JSON_parse (example_runtime files) = example_parse"
  by (simp add: example_runtime_def)

theorem load_degrades_to_sample_witness:
  "loadBlogData (example_runtime []) = Inr example_sample
   \<and> loadBlogData (example_runtime [(example_file, Inl SystemError)]) = Inr example_sample
   \<and> loadBlogData (example_runtime [(example_file, Inr ''{ broken'')]) = Inr example_sample
   \<and> loadBlogData (example_runtime [(example_file, Inr ''null'')]) = Inr JNull
   \<and> loadBlogData ((example_runtime []) \<lparr>isNodeJS := False\<rparr>) = Inr example_sample"
proof -
  let ?missing = "[] :: (string \<times> (js_error + string)) list"
  let ?unreadable = "[(example_file, Inl SystemError :: js_error + string)]"
  let ?malformed = "[(example_file, Inr ''{ broken'' :: js_error + string)]"
  let ?null = "[(example_file, Inr ''null'' :: js_error + string)]"
  have "reads_artifact (example_runtime ?missing) (example_fs ?missing) example_file \<and>
        \<not> existsSync (example_fs ?missing) example_file"
    using example_runtime_reads [of ?missing] by (simp add: example_fs_def)
  with load_degrades_to_sample [of "example_runtime ?missing"]
  have "loadBlogData (example_runtime ?missing) = Inr (SAMPLE (example_runtime ?missing))"
    by blast
  then have 1: "loadBlogData (example_runtime []) = Inr example_sample"
    by (simp add: example_runtime_sample)
  have "reads_artifact (example_runtime ?unreadable) (example_fs ?unreadable) example_file \<and>
        existsSync (example_fs ?unreadable) example_file \<and>
        readFileSync (example_fs ?unreadable) example_file = Inl SystemError"
    using example_runtime_reads [of ?unreadable] by (simp add: example_fs_def)
  with load_degrades_to_sample [of "example_runtime ?unreadable"]
  have "loadBlogData (example_runtime ?unreadable) = Inr (SAMPLE (example_runtime ?unreadable))"
    by blast
  then have 2: "loadBlogData (example_runtime ?unreadable) = Inr example_sample"
    by (simp add: example_runtime_sample)
  have "reads_artifact (example_runtime ?malformed) (example_fs ?malformed) example_file \<and>
        existsSync (example_fs ?malformed) example_file \<and>
        readFileSync (example_fs ?malformed) example_file = Inr ''{ broken'' \<and>
        JSON_parse (example_runtime ?malformed) ''{ broken'' = Inl SyntaxError"
    using example_runtime_reads [of ?malformed]
    by (simp add: example_fs_def example_runtime_parse example_parse_def)
  with load_degrades_to_sample [of "example_runtime ?malformed"]
  have "loadBlogData (example_runtime ?malformed) = Inr (SAMPLE (example_runtime ?malformed))"
    by blast
  then have 3: "loadBlogData (example_runtime ?malformed) = Inr example_sample"
    by (simp add: example_runtime_sample)
  have "reads_artifact (example_runtime ?null) (example_fs ?null) example_file \<and>
        existsSync (example_fs ?null) example_file \<and>
        readFileSync (example_fs ?null) example_file = Inr ''null'' \<and>
        JSON_parse (example_runtime ?null) ''null'' = Inr JNull"
    using example_runtime_reads [of ?null]
    by (simp add: example_fs_def example_runtime_parse example_parse_def)
  with load_degrades_to_sample [of "example_runtime ?null"]
  have 4: "loadBlogData (example_runtime ?null) = Inr JNull"
    by blast
  have 5: "loadBlogData ((example_runtime []) \<lparr>isNodeJS := False\<rparr>) = Inr example_sample"
    using load_degrades_to_sample [of "(example_runtime []) \<lparr>isNodeJS := False\<rparr>"]
    by (simp add: development_def SAMPLE_def example_runtime_def example_sample_def)
  show ?thesis using 1 2 3 4 5 by simp
qed

text \<open>
  C1 as stated fails for an artifact file that holds well-formed JSON of another shape: the
  text \<^verbatim>\<open>{}\<close> is parsed without an error, and the loader returns the empty object, which has
  no \<^verbatim>\<open>posts\<close> and is not a usable artifact.
\<close>

theorem load_unusable_counterexample:
  "loadBlogData (example_runtime [(example_file, Inr ''{}'')]) = Inr (JObj [])
   \<and> \<not> conforms_BlogData (JObj [])"
  using loadBlogData_reads [OF example_runtime_reads, of "[(example_file, Inr ''{}'')]"]
  by (simp add: example_runtime_parse example_fs_def example_parse_def conforms_BlogData_def
      has_field_def)

end
